theory Spec2Isabelle
  imports Main "HOL-Library.Sublist"
begin

section \<open>Python primitives the containers are built from\<close>

text \<open>
  The exceptions that the modelled code paths can raise. A method that can raise returns
  \<open>error + result\<close>, with \<open>Inl\<close> for the exception.
\<close>

datatype error = KeyError | IndexError | ValueError | TypeError | StopIteration

subsection \<open>The insertion-ordered \<open>dict\<close>\<close>

text \<open>
  A Python \<open>dict\<close> keeps its keys in insertion order, and both container classes iterate
  over \<open>self._map.keys()\<close>, so the order is observable. A dict is therefore an association
  list in insertion order. Assigning to a key that is present replaces its value and keeps
  its place; assigning to an absent key appends it.
\<close>

type_synonym ('k, 'v) dict = "('k \<times> 'v) list"

definition dict_len :: "('k, 'v) dict \<Rightarrow> int" where
  "dict_len d = int (length d)"

definition dict_keys :: "('k, 'v) dict \<Rightarrow> 'k list" where
  "dict_keys d = map fst d"

definition dict_contains :: "('k, 'v) dict \<Rightarrow> 'k \<Rightarrow> bool" where
  "dict_contains d k = (k \<in> set (dict_keys d))"

fun dict_setitem :: "('k, 'v) dict \<Rightarrow> 'k \<Rightarrow> 'v \<Rightarrow> ('k, 'v) dict" where
  "dict_setitem [] k v = [(k, v)]"
| "dict_setitem ((k', v') # d) k v =
     (if k' = k then (k', v) # d else (k', v') # dict_setitem d k v)"

definition dict_getitem :: "('k, 'v) dict \<Rightarrow> 'k \<Rightarrow> error + 'v" where
  "dict_getitem d k = (case map_of d k of None \<Rightarrow> Inl KeyError | Some v \<Rightarrow> Inr v)"

text \<open>\<open>del d[k]\<close> and \<open>d.pop(k)\<close>: KeyError when the key is absent.\<close>

definition dict_delitem :: "('k, 'v) dict \<Rightarrow> 'k \<Rightarrow> error + ('k, 'v) dict" where
  "dict_delitem d k =
     (if dict_contains d k then Inr (filter (\<lambda>kv. fst kv \<noteq> k) d) else Inl KeyError)"

text \<open>\<open>d.pop(k, None)\<close>: never raises.\<close>

definition dict_pop_default :: "('k, 'v) dict \<Rightarrow> 'k \<Rightarrow> ('k, 'v) dict" where
  "dict_pop_default d k = filter (\<lambda>kv. fst kv \<noteq> k) d"

text \<open>\<open>d.popitem()\<close> removes and returns the pair inserted last.\<close>

definition dict_popitem :: "('k, 'v) dict \<Rightarrow> error + (('k, 'v) dict \<times> ('k \<times> 'v))" where
  "dict_popitem d = (if d = [] then Inl KeyError else Inr (butlast d, last d))"

definition dict_fromkeys :: "'k list \<Rightarrow> ('k, unit) dict" where
  "dict_fromkeys ks = fold (\<lambda>k d. dict_setitem d k ()) ks []"

definition dict_update :: "('k, 'v) dict \<Rightarrow> ('k, 'v) dict \<Rightarrow> ('k, 'v) dict" where
  "dict_update d other = fold (\<lambda>kv d'. dict_setitem d' (fst kv) (snd kv)) other d"

subsection \<open>Lists, iterators\<close>

text \<open>
  Python list indexing: a negative index counts from the end, and an index with no element
  raises IndexError.
\<close>

definition list_position :: "'a list \<Rightarrow> int \<Rightarrow> error + nat" where
  "list_position xs i =
     (let n = int (length xs); j = (if i < 0 then n + i else i)
      in if 0 \<le> j \<and> j < n then Inr (nat j) else Inl IndexError)"

definition list_getitem :: "'a list \<Rightarrow> int \<Rightarrow> error + 'a" where
  "list_getitem xs i =
     (case list_position xs i of Inl e \<Rightarrow> Inl e | Inr j \<Rightarrow> Inr (xs ! j))"

definition list_delitem :: "'a list \<Rightarrow> int \<Rightarrow> error + 'a list" where
  "list_delitem xs i =
     (case list_position xs i of Inl e \<Rightarrow> Inl e
      | Inr j \<Rightarrow> Inr (take j xs @ drop (Suc j) xs))"

text \<open>
  \<open>sys.maxsize\<close> of a 64-bit CPython, the largest argument \<open>itertools.islice\<close> accepts.
\<close>

definition sys_maxsize :: int where
  "sys_maxsize = 2 ^ 63 - 1"

text \<open>
  \<open>itertools.islice(it, start, stop)\<close> rejects an argument outside \<open>0..sys.maxsize\<close> with
  ValueError when it is built; otherwise it yields the elements at positions
  \<open>start, ..., stop - 1\<close> that exist.
\<close>

definition islice :: "'a list \<Rightarrow> int \<Rightarrow> int \<Rightarrow> error + 'a list" where
  "islice xs start stop =
     (if start < 0 \<or> sys_maxsize < start \<or> stop < 0 \<or> sys_maxsize < stop then Inl ValueError
      else Inr (take (nat stop - nat start) (drop (nat start) xs)))"

text \<open>\<open>next(it)\<close> on a fresh iterator: StopIteration when it is exhausted.\<close>

definition next_item :: "'a list \<Rightarrow> error + 'a" where
  "next_item xs = (case xs of [] \<Rightarrow> Inl StopIteration | x # _ \<Rightarrow> Inr x)"

section \<open>The containers\<close>

text \<open>
  An object is its class and its slots: \<open>_map\<close> for \<open>StableSet\<close> and its subclass
  \<open>StableSetEq\<close> (the values are all \<open>None\<close>), \<open>_items\<close> and \<open>_map\<close> for \<open>OrderedSet\<close>
  (the values are positions). A method call dispatches on the constructor. An iterable
  argument is given by the list of elements its iteration yields.
\<close>

datatype 'a container =
    StableSet "('a, unit) dict"
  | StableSetEq "('a, unit) dict"
  | OrderedSet "'a list" "('a, int) dict"

datatype cls = StableSet_cls | StableSetEq_cls | OrderedSet_cls

fun type_of :: "'a container \<Rightarrow> cls" where
  "type_of (StableSet m) = StableSet_cls"
| "type_of (StableSetEq m) = StableSetEq_cls"
| "type_of (OrderedSet its m) = OrderedSet_cls"

text \<open>\<open>__len__\<close>, \<open>__contains__\<close> and \<open>__iter__\<close> are inherited by all classes and read \<open>_map\<close>.\<close>

fun len :: "'a container \<Rightarrow> int" where
  "len (StableSet m) = dict_len m"
| "len (StableSetEq m) = dict_len m"
| "len (OrderedSet its m) = dict_len m"


fun iter :: "'a container \<Rightarrow> 'a list" where
  "iter (StableSet m) = dict_keys m"
| "iter (StableSetEq m) = dict_keys m"
| "iter (OrderedSet its m) = dict_keys m"

subsection \<open>\<open>add\<close>\<close>

definition StableSet_add :: "('a, unit) dict \<Rightarrow> 'a \<Rightarrow> ('a, unit) dict \<times> int" where
  "StableSet_add m key = (let m' = dict_setitem m key () in (m', dict_len m' - 1))"

definition OrderedSet_add ::
  "'a list \<Rightarrow> ('a, int) dict \<Rightarrow> 'a \<Rightarrow> error + (('a list \<times> ('a, int) dict) \<times> int)" where
  "OrderedSet_add its m key =
     (let (its', m') =
        (if \<not> dict_contains m key
         then (its @ [key], dict_setitem m key (int (length its)))
         else (its, m))
      in case dict_getitem m' key of Inl e \<Rightarrow> Inl e | Inr i \<Rightarrow> Inr ((its', m'), i))"

fun add :: "'a container \<Rightarrow> 'a \<Rightarrow> error + ('a container \<times> int)" where
  "add (StableSet m) key = (case StableSet_add m key of (m', i) \<Rightarrow> Inr (StableSet m', i))"
| "add (StableSetEq m) key = (case StableSet_add m key of (m', i) \<Rightarrow> Inr (StableSetEq m', i))"
| "add (OrderedSet its m) key =
     (case OrderedSet_add its m key of Inl e \<Rightarrow> Inl e
      | Inr ((its', m'), i) \<Rightarrow> Inr (OrderedSet its' m', i))"

subsection \<open>Construction\<close>

text \<open>
  \<open>StableSet.__init__\<close> builds \<open>_map\<close> with \<open>dict.fromkeys(initial)\<close> when \<open>initial\<close> is
  truthy. \<open>OrderedSet.__init__\<close> starts empty and runs \<open>self |= initial\<close>, which is
  \<open>MutableSet.__ior__\<close>: \<open>add\<close> on each element in turn.
\<close>

definition StableSet_init :: "'a list \<Rightarrow> ('a, unit) dict" where
  "StableSet_init initial = (if initial \<noteq> [] then dict_fromkeys initial else [])"

fun ior :: "'a container \<Rightarrow> 'a list \<Rightarrow> error + 'a container" where
  "ior self [] = Inr self"
| "ior self (v # vs) =
     (case add self v of Inl e \<Rightarrow> Inl e | Inr (self', i) \<Rightarrow> ior self' vs)"

definition OrderedSet_init :: "'a list \<Rightarrow> error + 'a container" where
  "OrderedSet_init initial = ior (OrderedSet [] []) initial"

fun init :: "cls \<Rightarrow> 'a list \<Rightarrow> error + 'a container" where
  "init StableSet_cls initial = Inr (StableSet (StableSet_init initial))"
| "init StableSetEq_cls initial = Inr (StableSetEq (StableSet_init initial))"
| "init OrderedSet_cls initial = OrderedSet_init initial"

subsection \<open>\<open>__getitem__\<close> with an integer index, \<open>index\<close> of one key\<close>

text \<open>
  \<open>StableSet.__getitem__\<close> reads \<open>next(itertools.islice(self._map.keys(), index, index + 1))\<close>
  and turns StopIteration into IndexError; \<open>OrderedSet.__getitem__\<close> reads
  \<open>self._items[index]\<close>.
\<close>

definition StableSet_getitem :: "('a, unit) dict \<Rightarrow> int \<Rightarrow> error + 'a" where
  "StableSet_getitem m idx =
     (case islice (dict_keys m) idx (idx + 1) of Inl e \<Rightarrow> Inl e
      | Inr it \<Rightarrow>
          (case next_item it of Inl StopIteration \<Rightarrow> Inl IndexError
           | Inl e \<Rightarrow> Inl e
           | Inr x \<Rightarrow> Inr x))"

fun getitem :: "'a container \<Rightarrow> int \<Rightarrow> error + 'a" where
  "getitem (StableSet m) idx = StableSet_getitem m idx"
| "getitem (StableSetEq m) idx = StableSet_getitem m idx"
| "getitem (OrderedSet its m) idx = list_getitem its idx"

text \<open>
  \<open>StableSet.index\<close> scans \<open>enumerate(self._map.keys())\<close> and raises KeyError at the end of
  the scan; \<open>OrderedSet.index\<close> is \<open>self._map[key]\<close>.
\<close>

fun StableSet_index_scan :: "'a list \<Rightarrow> int \<Rightarrow> 'a \<Rightarrow> error + int" where
  "StableSet_index_scan [] i key = Inl KeyError"
| "StableSet_index_scan (item # rest) i key =
     (if item = key then Inr i else StableSet_index_scan rest (i + 1) key)"

fun index :: "'a container \<Rightarrow> 'a \<Rightarrow> error + int" where
  "index (StableSet m) key = StableSet_index_scan (dict_keys m) 0 key"
| "index (StableSetEq m) key = StableSet_index_scan (dict_keys m) 0 key"
| "index (OrderedSet its m) key = dict_getitem m key"

subsection \<open>\<open>pop\<close> and \<open>popitem\<close>\<close>

definition StableSet_pop :: "('a, unit) dict \<Rightarrow> int \<Rightarrow> error + (('a, unit) dict \<times> 'a)" where
  "StableSet_pop m idx =
     (if m = [] then Inl KeyError
      else if idx = - 1 then
        (case dict_popitem m of Inl e \<Rightarrow> Inl e | Inr (m', (elem, _)) \<Rightarrow> Inr (m', elem))
      else
        (case (if idx = 0 then next_item (dict_keys m)
               else (case islice (dict_keys m) idx (idx + 1) of Inl e \<Rightarrow> Inl e
                     | Inr it \<Rightarrow> next_item it)) of
           Inl e \<Rightarrow> Inl e
         | Inr elem \<Rightarrow>
             (case dict_delitem m elem of Inl e \<Rightarrow> Inl e | Inr m' \<Rightarrow> Inr (m', elem))))"

definition OrderedSet_pop ::
  "'a list \<Rightarrow> ('a, int) dict \<Rightarrow> int \<Rightarrow> error + (('a list \<times> ('a, int) dict) \<times> 'a)" where
  "OrderedSet_pop its m idx =
     (if its = [] then Inl KeyError
      else
        (case list_getitem its idx of Inl e \<Rightarrow> Inl e
         | Inr elem \<Rightarrow>
             (case list_delitem its idx of Inl e \<Rightarrow> Inl e
              | Inr its' \<Rightarrow>
                  (case dict_delitem m elem of Inl e \<Rightarrow> Inl e
                   | Inr m' \<Rightarrow> Inr ((its', m'), elem)))))"

fun pop :: "'a container \<Rightarrow> int \<Rightarrow> error + ('a container \<times> 'a)" where
  "pop (StableSet m) idx =
     (case StableSet_pop m idx of Inl e \<Rightarrow> Inl e | Inr (m', elem) \<Rightarrow> Inr (StableSet m', elem))"
| "pop (StableSetEq m) idx =
     (case StableSet_pop m idx of Inl e \<Rightarrow> Inl e
      | Inr (m', elem) \<Rightarrow> Inr (StableSetEq m', elem))"
| "pop (OrderedSet its m) idx =
     (case OrderedSet_pop its m idx of Inl e \<Rightarrow> Inl e
      | Inr ((its', m'), elem) \<Rightarrow> Inr (OrderedSet its' m', elem))"

definition StableSet_popitem :: "('a, unit) dict \<Rightarrow> bool \<Rightarrow> error + (('a, unit) dict \<times> 'a)" where
  "StableSet_popitem m last_flag =
     (if m = [] then Inl KeyError
      else if last_flag then
        (case dict_popitem m of Inl e \<Rightarrow> Inl e | Inr (m', (elem, _)) \<Rightarrow> Inr (m', elem))
      else
        (case next_item (dict_keys m) of Inl e \<Rightarrow> Inl e
         | Inr elem \<Rightarrow>
             (case dict_delitem m elem of Inl e \<Rightarrow> Inl e | Inr m' \<Rightarrow> Inr (m', elem))))"

definition OrderedSet_popitem ::
  "'a list \<Rightarrow> ('a, int) dict \<Rightarrow> bool \<Rightarrow> error + (('a list \<times> ('a, int) dict) \<times> 'a)" where
  "OrderedSet_popitem its m last_flag =
     (if its = [] then Inl KeyError
      else
        (let idx = (if last_flag then - 1 else 0)
         in case list_getitem its idx of Inl e \<Rightarrow> Inl e
            | Inr elem \<Rightarrow>
                (case list_delitem its idx of Inl e \<Rightarrow> Inl e
                 | Inr its' \<Rightarrow>
                     (case dict_delitem m elem of Inl e \<Rightarrow> Inl e
                      | Inr m' \<Rightarrow> Inr ((its', m'), elem)))))"

fun popitem :: "'a container \<Rightarrow> bool \<Rightarrow> error + ('a container \<times> 'a)" where
  "popitem (StableSet m) last_flag =
     (case StableSet_popitem m last_flag of Inl e \<Rightarrow> Inl e
      | Inr (m', elem) \<Rightarrow> Inr (StableSet m', elem))"
| "popitem (StableSetEq m) last_flag =
     (case StableSet_popitem m last_flag of Inl e \<Rightarrow> Inl e
      | Inr (m', elem) \<Rightarrow> Inr (StableSetEq m', elem))"
| "popitem (OrderedSet its m) last_flag =
     (case OrderedSet_popitem its m last_flag of Inl e \<Rightarrow> Inl e
      | Inr ((its', m'), elem) \<Rightarrow> Inr (OrderedSet its' m', elem))"

subsection \<open>\<open>discard\<close>\<close>

text \<open>
  The repair loop of \<open>OrderedSet.discard\<close>, \<open>for k, v in self._map.items(): if v >= i:
  self._map[k] = v - 1\<close>. It assigns to keys that are present, so the dict keeps its keys and
  their order while it is traversed, and each entry is read before it is rewritten: the loop
  runs over the entries as they were when it started.
\<close>

fun reindex_loop :: "('a \<times> int) list \<Rightarrow> int \<Rightarrow> ('a, int) dict \<Rightarrow> ('a, int) dict" where
  "reindex_loop [] i m = m"
| "reindex_loop ((k, v) # kvs) i m =
     reindex_loop kvs i (if v \<ge> i then dict_setitem m k (v - 1) else m)"

definition OrderedSet_discard ::
  "'a list \<Rightarrow> ('a, int) dict \<Rightarrow> 'a \<Rightarrow> error + ('a list \<times> ('a, int) dict)" where
  "OrderedSet_discard its m key =
     (if dict_contains m key then
        (case dict_getitem m key of Inl e \<Rightarrow> Inl e
         | Inr i \<Rightarrow>
             (case list_delitem its i of Inl e \<Rightarrow> Inl e
              | Inr its' \<Rightarrow>
                  (case dict_delitem m key of Inl e \<Rightarrow> Inl e
                   | Inr m' \<Rightarrow> Inr (its', reindex_loop m' i m'))))
      else Inr (its, m))"

fun discard :: "'a container \<Rightarrow> 'a \<Rightarrow> error + 'a container" where
  "discard (StableSet m) key = Inr (StableSet (dict_pop_default m key))"
| "discard (StableSetEq m) key = Inr (StableSetEq (dict_pop_default m key))"
| "discard (OrderedSet its m) key =
     (case OrderedSet_discard its m key of Inl e \<Rightarrow> Inl e
      | Inr (its', m') \<Rightarrow> Inr (OrderedSet its' m'))"

subsection \<open>\<open>update\<close>\<close>

text \<open>
  The argument of \<open>update\<close> is any Python object: an iterable, given by the elements it
  yields, or an object that cannot be iterated. \<open>dict.fromkeys\<close> and the \<open>for\<close> loop raise
  TypeError on the latter, which both methods turn into ValueError.
\<close>

datatype 'a argument = Iterable "'a list" | NotIterable

definition StableSet_update ::
  "('a, unit) dict \<Rightarrow> 'a argument \<Rightarrow> error + (('a, unit) dict \<times> int)" where
  "StableSet_update m sequence =
     (case sequence of
        NotIterable \<Rightarrow> Inl ValueError
      | Iterable xs \<Rightarrow>
          (let other_map = dict_fromkeys xs; m' = dict_update m other_map
           in Inr (m', dict_len m' - 1)))"

fun OrderedSet_update_loop ::
  "'a container \<Rightarrow> int \<Rightarrow> 'a list \<Rightarrow> error + ('a container \<times> int)" where
  "OrderedSet_update_loop self item_index [] = Inr (self, item_index)"
| "OrderedSet_update_loop self item_index (item # rest) =
     (case add self item of
        Inl TypeError \<Rightarrow> Inl ValueError
      | Inl e \<Rightarrow> Inl e
      | Inr (self', i) \<Rightarrow> OrderedSet_update_loop self' i rest)"

definition OrderedSet_update :: "'a container \<Rightarrow> 'a argument \<Rightarrow> error + ('a container \<times> int)" where
  "OrderedSet_update self sequence =
     (case sequence of
        NotIterable \<Rightarrow> Inl ValueError
      | Iterable xs \<Rightarrow> OrderedSet_update_loop self 0 xs)"

fun update :: "'a container \<Rightarrow> 'a argument \<Rightarrow> error + ('a container \<times> int)" where
  "update (StableSet m) sequence =
     (case StableSet_update m sequence of Inl e \<Rightarrow> Inl e
      | Inr (m', i) \<Rightarrow> Inr (StableSet m', i))"
| "update (StableSetEq m) sequence =
     (case StableSet_update m sequence of Inl e \<Rightarrow> Inl e
      | Inr (m', i) \<Rightarrow> Inr (StableSetEq m', i))"
| "update (OrderedSet its m) sequence = OrderedSet_update (OrderedSet its m) sequence"

subsection \<open>\<open>isorderedsubset\<close>\<close>

text \<open>
  The scan of \<open>StableSet.isorderedsubset\<close>: \<open>other\<close> is traversed once, \<open>i\<close> counts the
  elements of \<open>self\<close> matched so far, and \<open>self[i]\<close> is read at every step.
\<close>

fun isorderedsubset_scan :: "'a container \<Rightarrow> int \<Rightarrow> int \<Rightarrow> 'a list \<Rightarrow> error + bool" where
  "isorderedsubset_scan self self_len i [] = Inr False"
| "isorderedsubset_scan self self_len i (other_item # rest) =
     (case getitem self i of
        Inl e \<Rightarrow> Inl e
      | Inr x \<Rightarrow>
          (if other_item = x then
             (if i + 1 = self_len then Inr True
              else isorderedsubset_scan self self_len (i + 1) rest)
           else isorderedsubset_scan self self_len i rest))"

definition StableSet_isorderedsubset :: "'a container \<Rightarrow> 'a list \<Rightarrow> error + bool" where
  "StableSet_isorderedsubset self other =
     (if len self > int (length other) then Inr False
      else isorderedsubset_scan self (len self) 0 other)"

subsection \<open>\<open>union\<close>, \<open>difference\<close>, \<open>symmetric_difference\<close>\<close>

text \<open>
  These are defined once, in \<open>StableSet\<close>, and build their result with the class of \<open>self\<close>.
  \<open>union\<close> chains \<open>list(self)\<close> and the lists of its arguments; \<open>difference\<close> filters \<open>self\<close>
  against \<open>set.union(*map(set, sets))\<close> when it has arguments.
\<close>

definition StableSet_union :: "'a container \<Rightarrow> 'a list list \<Rightarrow> error + 'a container" where
  "StableSet_union self sets = init (type_of self) (concat (iter self # sets))"



subsection \<open>\<open>__getstate__\<close>, \<open>__setstate__\<close>, \<open>copy\<close>\<close>

text \<open>
  The pickled state is the tuple \<open>(None,)\<close> for an empty container and \<open>list(self)\<close>
  otherwise. \<open>__setstate__\<close> runs \<open>self.__init__\<close> again, which discards what \<open>self\<close> held.
\<close>

datatype 'a state = EmptyMarker | Items "'a list"

definition StableSet_getstate :: "'a container \<Rightarrow> 'a state" where
  "StableSet_getstate self = (if len self = 0 then EmptyMarker else Items (iter self))"

definition StableSet_setstate :: "'a container \<Rightarrow> 'a state \<Rightarrow> error + 'a container" where
  "StableSet_setstate self state =
     (case state of
        EmptyMarker \<Rightarrow> init (type_of self) []
      | Items xs \<Rightarrow> init (type_of self) xs)"

text \<open>
  Object identity. The heap is the list of the objects allocated so far, and an object
  is named by its position in it; calling a class allocates the next position.
  \<open>copy\<close> is \<open>self.__class__(self)\<close>.
\<close>

type_synonym 'a heap = "'a container list"

definition new_object :: "'a heap \<Rightarrow> 'a container \<Rightarrow> 'a heap \<times> nat" where
  "new_object h c = (h @ [c], length h)"

definition StableSet_copy :: "'a heap \<Rightarrow> nat \<Rightarrow> error + ('a heap \<times> nat)" where
  "StableSet_copy h self =
     (case init (type_of (h ! self)) (iter (h ! self)) of
        Inl e \<Rightarrow> Inl e
      | Inr c \<Rightarrow> Inr (new_object h c))"

subsection \<open>The invariant of \<open>OrderedSet\<close>\<close>

text \<open>
  \<open>position_map[x] == i\<close> if and only if \<open>sequence[i] == x\<close>: every entry \<open>(x, i)\<close> of \<open>_map\<close>
  has \<open>_items[i] == x\<close> with \<open>i\<close> a position of \<open>_items\<close>, and every position \<open>j\<close> of
  \<open>_items\<close> has \<open>_map[_items[j]] == j\<close>. The keys of a dict are distinct.
\<close>

definition position_invariant :: "'a list \<Rightarrow> ('a, int) dict \<Rightarrow> bool" where
  "position_invariant its m =
     (distinct (dict_keys m)
      \<and> list_all (\<lambda>kv. 0 \<le> snd kv \<and> snd kv < int (length its) \<and> its ! nat (snd kv) = fst kv) m
      \<and> list_all (\<lambda>j. dict_getitem m (its ! j) = Inr (int j)) [0..<length its])"


subsection \<open>Well-formed containers, order of first occurrence\<close>

text \<open>
  The keys of a dict are distinct, and an \<open>OrderedSet\<close> lists in \<open>_items\<close> the keys of \<open>_map\<close>
  in their order, each mapped to its position.
\<close>

fun wf :: "'a container \<Rightarrow> bool" where
  "wf (StableSet m) = distinct (dict_keys m)"
| "wf (StableSetEq m) = distinct (dict_keys m)"
| "wf (OrderedSet its m) = (dict_keys m = its \<and> position_invariant its m)"

text \<open>
  The ordering policy of the specification, in its words: a sequence deduplicated on first
  occurrence keeps each element where it first appears and drops its later repetitions.
\<close>

fun first_occurrences :: "'a list \<Rightarrow> 'a list" where
  "first_occurrences [] = []"
| "first_occurrences (x # xs) = x # first_occurrences (removeAll x xs)"




section \<open>Properties\<close>

subsection \<open>The dict primitives and the invariant of \<open>OrderedSet\<close>\<close>

lemma map_of_dict_setitem: "map_of (dict_setitem d k v) = (map_of d)(k \<mapsto> v)"
  by (induction d) (auto simp: fun_eq_iff)

lemma dict_keys_setitem:
  "dict_keys (dict_setitem d k v) = (if k \<in> set (dict_keys d) then dict_keys d else dict_keys d @ [k])"
  by (induction d) (force simp: dict_keys_def)+

lemma dict_setitem_absent: "k \<notin> set (dict_keys d) \<Longrightarrow> dict_setitem d k v = d @ [(k, v)]"
  by (induction d) (auto simp: dict_keys_def)


lemma dict_getitem_Inr: "dict_getitem m k = Inr v \<longleftrightarrow> map_of m k = Some v"
  by (simp add: dict_getitem_def split: option.splits)

lemma dict_contains_map_of: "dict_contains m k \<longleftrightarrow> map_of m k \<noteq> None"
  by (simp add: dict_contains_def dict_keys_def map_of_eq_None_iff)

lemma position_invariant_iff:
  "position_invariant its m \<longleftrightarrow>
     distinct (dict_keys m) \<and>
     (\<forall>x i. map_of m x = Some i \<longleftrightarrow> (0 \<le> i \<and> i < int (length its) \<and> its ! nat i = x))"
  (is "?L \<longleftrightarrow> ?D \<and> ?R")
proof
  assume L: ?L
  then have d: ?D and
    a: "\<And>x i. (x, i) \<in> set m \<Longrightarrow> 0 \<le> i \<and> i < int (length its) \<and> its ! nat i = x" and
    b: "\<And>j. j < length its \<Longrightarrow> map_of m (its ! j) = Some (int j)"
    by (auto simp: position_invariant_def list_all_iff dict_getitem_Inr)
  have ?R
  proof (intro allI iffI)
    fix x i assume "map_of m x = Some i"
    then show "0 \<le> i \<and> i < int (length its) \<and> its ! nat i = x"
      using a map_of_SomeD by fastforce
  next
    fix x i assume h: "0 \<le> i \<and> i < int (length its) \<and> its ! nat i = x"
    then have "nat i < length its" by linarith
    from b[OF this] h show "map_of m x = Some i" by simp
  qed
  with d show "?D \<and> ?R" by simp
next
  assume h: "?D \<and> ?R"
  then have d: "distinct (map fst m)" by (simp add: dict_keys_def)
  have a: "\<And>x i. (x, i) \<in> set m \<Longrightarrow> map_of m x = Some i"
    using d by simp
  show ?L
    unfolding position_invariant_def list_all_iff
    using h a by (auto simp: dict_getitem_Inr)
qed

lemma position_invariant_nth:
  assumes "position_invariant its m" "j < length its"
  shows "map_of m (its ! j) = Some (int j)"
  using assms by (simp add: position_invariant_iff)


lemma OrderedSet_add_invariant:
  assumes inv: "position_invariant its m"
  shows "\<exists>its' m' i. OrderedSet_add its m key = Inr ((its', m'), i)
           \<and> position_invariant its' m'
           \<and> its' = (if dict_contains m key then its else its @ [key])
           \<and> m' = (if dict_contains m key then m else dict_setitem m key (int (length its)))
           \<and> map_of m' key = Some i"
proof (cases "dict_contains m key")
  case True
  then obtain i where "map_of m key = Some i"
    by (auto simp: dict_contains_map_of)
  with True inv show ?thesis
    by (simp add: OrderedSet_add_def dict_getitem_def)
next
  case False
  let ?n = "int (length its)"
  let ?m' = "dict_setitem m key ?n"
  from False have absent: "map_of m key = None" "key \<notin> set (dict_keys m)"
    by (simp_all add: dict_contains_def dict_keys_def map_of_eq_None_iff)
  from inv have d: "distinct (dict_keys m)"
    and r: "\<And>x i. map_of m x = Some i \<longleftrightarrow> (0 \<le> i \<and> i < ?n \<and> its ! nat i = x)"
    by (simp_all add: position_invariant_iff)
  have notin: "key \<notin> set its"
  proof
    assume "key \<in> set its"
    then obtain j where "j < length its" "its ! j = key" by (auto simp: in_set_conv_nth)
    with position_invariant_nth[OF inv] absent show False by fastforce
  qed
  have d': "distinct (dict_keys ?m')"
    using d absent by (simp add: dict_keys_setitem)
  have r': "map_of ?m' x = Some i \<longleftrightarrow>
              (0 \<le> i \<and> i < int (length (its @ [key])) \<and> (its @ [key]) ! nat i = x)" for x i
  proof (cases "x = key")
    case True
    have A: "(0 \<le> i \<and> i < int (length (its @ [key])) \<and> (its @ [key]) ! nat i = key) \<longleftrightarrow> i = ?n"
    proof
      assume h: "0 \<le> i \<and> i < int (length (its @ [key])) \<and> (its @ [key]) ! nat i = key"
      show "i = ?n"
      proof (rule ccontr)
        assume "i \<noteq> ?n"
        with h have lt: "nat i < length its" by simp linarith
        with h have "its ! nat i = key" by (simp add: nth_append)
        with lt notin show False by (metis nth_mem)
      qed
    qed (simp add: nth_append)
    have B: "map_of ?m' key = Some i \<longleftrightarrow> i = ?n"
      by (auto simp: map_of_dict_setitem)
    show ?thesis unfolding True by (simp only: A B)
  next
    case False
    have A: "(0 \<le> i \<and> i < int (length (its @ [key])) \<and> (its @ [key]) ! nat i = x)
            \<longleftrightarrow> (0 \<le> i \<and> i < ?n \<and> its ! nat i = x)"
    proof (cases "i = ?n")
      case True
      with False show ?thesis by (simp add: nth_append)
    next
      case ne: False
      show ?thesis
      proof (cases "0 \<le> i \<and> i < ?n")
        case True
        then have "nat i < length its" by linarith
        with True show ?thesis by (simp add: nth_append)
      next
        case False
        with ne show ?thesis by auto
      qed
    qed
    have B: "map_of ?m' x = map_of m x"
      using False by (simp add: map_of_dict_setitem)
    show ?thesis by (simp only: A B r)
  qed
  have "position_invariant (its @ [key]) ?m'"
    unfolding position_invariant_iff using d' r' by blast
  moreover have "map_of ?m' key = Some ?n" by (simp add: map_of_dict_setitem)
  ultimately show ?thesis
    using False by (simp add: OrderedSet_add_def dict_getitem_def)
qed













subsection \<open>Order of first occurrence\<close>

lemma set_first_occurrences: "set (first_occurrences xs) = set xs"
  by (induction xs rule: first_occurrences.induct) auto

lemma distinct_first_occurrences: "distinct (first_occurrences xs)"
  by (induction xs rule: first_occurrences.induct) (auto simp: set_first_occurrences)

lemma first_occurrences_distinct: "distinct xs \<Longrightarrow> first_occurrences xs = xs"
  by (induction xs) (auto simp: removeAll_id)

lemma filter_removeAll_absent:
  "filter (\<lambda>y. y \<notin> set (removeAll x xs)) (removeAll x ys) = filter (\<lambda>y. y \<notin> set (x # xs)) ys"
  by (induction ys) auto

lemma first_occurrences_append:
  "first_occurrences (xs @ ys)
     = first_occurrences xs @ first_occurrences (filter (\<lambda>y. y \<notin> set xs) ys)"
proof (induction xs arbitrary: ys rule: first_occurrences.induct)
  case 1
  then show ?case by simp
next
  case (2 x xs)
  have "first_occurrences ((x # xs) @ ys)
      = x # first_occurrences (removeAll x xs @ removeAll x ys)"
    by simp
  also have "\<dots> = x # first_occurrences (removeAll x xs)
               @ first_occurrences (filter (\<lambda>y. y \<notin> set (removeAll x xs)) (removeAll x ys))"
    by (simp only: "2.IH" append_Cons)
  also have "\<dots> = first_occurrences (x # xs)
               @ first_occurrences (filter (\<lambda>y. y \<notin> set (x # xs)) ys)"
    by (simp only: filter_removeAll_absent first_occurrences.simps append_Cons)
  finally show ?case .
qed

lemma first_occurrences_idem_append:
  "first_occurrences (first_occurrences xs @ ys) = first_occurrences (xs @ ys)"
  by (simp add: first_occurrences_append[of "first_occurrences xs"] first_occurrences_append[of xs]
      set_first_occurrences first_occurrences_distinct distinct_first_occurrences)

subsection \<open>Construction\<close>

lemma dict_keys_fold_setitem:
  "dict_keys (fold (\<lambda>k d. dict_setitem d k v) xs d)
     = dict_keys d @ first_occurrences (filter (\<lambda>y. y \<notin> set (dict_keys d)) xs)"
proof (induction xs arbitrary: d)
  case Nil
  then show ?case by simp
next
  case (Cons x xs)
  show ?case
  proof (cases "x \<in> set (dict_keys d)")
    case True
    then show ?thesis by (simp add: Cons.IH dict_keys_setitem)
  next
    case False
    have "filter (\<lambda>y. y \<noteq> x \<and> y \<notin> set (dict_keys d)) xs
        = removeAll x (filter (\<lambda>y. y \<notin> set (dict_keys d)) xs)"
      by (induction xs) auto
    with False show ?thesis by (simp add: Cons.IH dict_keys_setitem)
  qed
qed

lemma unit_dict_eq: "dict_keys (d::('a, unit) dict) = dict_keys d' \<Longrightarrow> d = d'"
  by (induction d arbitrary: d') (auto simp: dict_keys_def)

lemma dict_keys_fromkeys: "dict_keys (dict_fromkeys xs) = first_occurrences xs"
  using dict_keys_fold_setitem[of "()" xs "[]"] by (simp add: dict_fromkeys_def dict_keys_def)

lemma dict_keys_StableSet_init: "dict_keys (StableSet_init xs) = first_occurrences xs"
  by (simp add: StableSet_init_def dict_keys_fromkeys) (simp add: dict_keys_def)

lemma OrderedSet_add_wf:
  assumes "wf (OrderedSet its m)"
  shows "\<exists>m' i. add (OrderedSet its m) key
            = Inr (OrderedSet (if key \<in> set its then its else its @ [key]) m', i)
         \<and> wf (OrderedSet (if key \<in> set its then its else its @ [key]) m')"
proof -
  from assms have k: "dict_keys m = its" and inv: "position_invariant its m" by simp_all
  from OrderedSet_add_invariant[OF inv, of key]
  obtain its' m' i where r: "OrderedSet_add its m key = Inr ((its', m'), i)"
    and inv': "position_invariant its' m'"
    and its': "its' = (if dict_contains m key then its else its @ [key])"
    and m': "m' = (if dict_contains m key then m else dict_setitem m key (int (length its)))"
    by blast
  have c: "dict_contains m key \<longleftrightarrow> key \<in> set its" by (simp add: dict_contains_def k)
  have keys: "dict_keys m' = its'"
    unfolding its' m' c using k by (simp add: dict_keys_setitem)
  have its'': "its' = (if key \<in> set its then its else its @ [key])"
    unfolding its' c ..
  have "add (OrderedSet its m) key = Inr (OrderedSet its' m', i)" using r by simp
  moreover have "wf (OrderedSet its' m')" using keys inv' by simp
  ultimately show ?thesis unfolding its'' by blast
qed

lemma first_occurrences_filter_Cons:
  "(if x \<in> set its then its else its @ [x])
     @ first_occurrences (filter (\<lambda>y. y \<notin> set (if x \<in> set its then its else its @ [x])) xs)
   = its @ first_occurrences (filter (\<lambda>y. y \<notin> set its) (x # xs))"
proof (cases "x \<in> set its")
  case True
  then show ?thesis by simp
next
  case False
  have "filter (\<lambda>y. y \<noteq> x \<and> y \<notin> set its) xs = removeAll x (filter (\<lambda>y. y \<notin> set its) xs)"
    by (induction xs) auto
  with False show ?thesis by simp
qed

lemma ior_OrderedSet:
  "wf (OrderedSet its m) \<Longrightarrow>
   \<exists>m'. ior (OrderedSet its m) xs
           = Inr (OrderedSet (its @ first_occurrences (filter (\<lambda>y. y \<notin> set its) xs)) m')
       \<and> wf (OrderedSet (its @ first_occurrences (filter (\<lambda>y. y \<notin> set its) xs)) m')"
proof (induction xs arbitrary: its m)
  case Nil
  then show ?case by simp
next
  case (Cons x xs)
  define its1 where "its1 = (if x \<in> set its then its else its @ [x])"
  from OrderedSet_add_wf[OF Cons.prems, of x]
  obtain m1 i where a: "add (OrderedSet its m) x = Inr (OrderedSet its1 m1, i)"
    and w: "wf (OrderedSet its1 m1)" unfolding its1_def by blast
  from Cons.IH[OF w] obtain m' where
    r: "ior (OrderedSet its1 m1) xs
          = Inr (OrderedSet (its1 @ first_occurrences (filter (\<lambda>y. y \<notin> set its1) xs)) m')"
    and w': "wf (OrderedSet (its1 @ first_occurrences (filter (\<lambda>y. y \<notin> set its1) xs)) m')"
    by blast
  have e: "its1 @ first_occurrences (filter (\<lambda>y. y \<notin> set its1) xs)
         = its @ first_occurrences (filter (\<lambda>y. y \<notin> set its) (x # xs))"
    unfolding its1_def by (rule first_occurrences_filter_Cons)
  have s: "ior (OrderedSet its m) (x # xs) = ior (OrderedSet its1 m1) xs"
    by (simp add: a del: add.simps)
  from r w' show ?case unfolding s e by blast
qed

lemma wf_empty_OrderedSet: "wf (OrderedSet [] [])"
  by (simp add: position_invariant_def dict_keys_def)

lemma wf_OrderedSet_zip:
  assumes "wf (OrderedSet its m)"
  shows "m = zip its (map int [0..<length its])"
proof -
  from assms have k: "map fst m = its" and inv: "position_invariant its m"
    by (simp_all add: dict_keys_def)
  have len: "length m = length its" using k by (metis length_map)
  have d: "distinct (map fst m)"
    using inv by (simp add: position_invariant_def dict_keys_def)
  have v: "snd (m ! j) = int j" if j: "j < length m" for j
  proof -
    have "m ! j \<in> set m" using j by simp
    then have "(fst (m ! j), snd (m ! j)) \<in> set m" by simp
    then have "map_of m (fst (m ! j)) = Some (snd (m ! j))"
      using d by (rule map_of_is_SomeI[rotated])
    moreover have "fst (m ! j) = its ! j" using k j by (metis nth_map)
    moreover have "map_of m (its ! j) = Some (int j)"
      using position_invariant_nth[OF inv] j len by simp
    ultimately show ?thesis by simp
  qed
  have "map snd m = map int [0..<length its]"
    by (rule nth_equalityI) (simp_all add: len v)
  with k have "zip its (map int [0..<length its]) = zip (map fst m) (map snd m)" by simp
  then show ?thesis by (simp only: zip_map_fst_snd)
qed

lemma wf_OrderedSet_unique:
  assumes "wf (OrderedSet its m)" "wf (OrderedSet its m')"
  shows "m = m'"
  using wf_OrderedSet_zip[OF assms(1)] wf_OrderedSet_zip[OF assms(2)] by simp

lemma init_result:
  "\<exists>r. init c xs = Inr r \<and> type_of r = c \<and> wf r \<and> iter r = first_occurrences xs"
proof (cases c)
  case StableSet_cls
  then show ?thesis by (simp add: dict_keys_StableSet_init distinct_first_occurrences)
next
  case StableSetEq_cls
  then show ?thesis by (simp add: dict_keys_StableSet_init distinct_first_occurrences)
next
  case OrderedSet_cls
  from ior_OrderedSet[OF wf_empty_OrderedSet, of xs]
  show ?thesis by (auto simp: OrderedSet_cls OrderedSet_init_def)
qed

lemma wf_unique:
  assumes "wf a" "wf b" "type_of a = type_of b" "iter a = iter b"
  shows "a = b"
proof (cases a)
  case (StableSet m)
  with assms show ?thesis by (cases b) (auto intro: unit_dict_eq)
next
  case (StableSetEq m)
  with assms show ?thesis by (cases b) (auto intro: unit_dict_eq)
next
  case (OrderedSet its m)
  with assms obtain m' where b: "b = OrderedSet its m'" by (cases b) auto
  with assms OrderedSet wf_OrderedSet_unique[of its m m'] show ?thesis by simp
qed

lemma wf_distinct_iter: "wf a \<Longrightarrow> distinct (iter a)"
  by (cases a) (auto simp: position_invariant_def)

lemma init_distinct:
  assumes "distinct xs"
  shows "\<exists>r. init c xs = Inr r \<and> type_of r = c \<and> wf r \<and> iter r = xs"
  using init_result[of c xs] first_occurrences_distinct[OF assms] by simp

lemma StableSet_union_result:
  "\<exists>r. StableSet_union A sets = Inr r \<and> type_of r = type_of A \<and> wf r
       \<and> iter r = first_occurrences (concat (iter A # sets))"
  unfolding StableSet_union_def by (rule init_result)


lemma len_zero_iff: "len C = 0 \<longleftrightarrow> iter C = []"
  by (cases C) (simp_all add: dict_len_def dict_keys_def)

subsection \<open>\<open>isorderedsubset\<close> with a nonempty \<open>self\<close>\<close>

text \<open>
  When \<open>self\<close> has an element the scan decides the subsequence relation of
  the library theory \<open>Sublist\<close>. The bound on the length keeps the positions within what
  \<open>islice\<close> accepts.
\<close>

lemma StableSet_getitem_nth:
  assumes "i < length m" "int (length m) \<le> sys_maxsize"
  shows "StableSet_getitem m (int i) = Inr (dict_keys m ! i)"
proof -
  have "i < length (dict_keys m)" using assms(1) by (simp add: dict_keys_def)
  then have "drop i (dict_keys m) = dict_keys m ! i # drop (Suc i) (dict_keys m)"
    by (rule Cons_nth_drop_Suc[symmetric])
  moreover have "nat (int i + 1) - i = Suc 0" by simp
  ultimately show ?thesis
    using assms by (simp add: StableSet_getitem_def islice_def next_item_def)
qed

lemma getitem_nth:
  assumes "wf self" "i < length (iter self)" "len self \<le> sys_maxsize"
  shows "getitem self (int i) = Inr (iter self ! i)"
proof (cases self)
  case (StableSet m)
  with assms show ?thesis
    by (simp add: StableSet_getitem_nth dict_len_def dict_keys_def)
next
  case (StableSetEq m)
  with assms show ?thesis
    by (simp add: StableSet_getitem_nth dict_len_def dict_keys_def)
next
  case (OrderedSet its m)
  with assms show ?thesis
    by (auto simp: list_getitem_def list_position_def)
qed

lemma isorderedsubset_scan_subseq:
  assumes "wf self" "len self \<le> sys_maxsize"
  shows "i < length (iter self) \<Longrightarrow>
         isorderedsubset_scan self (int (length (iter self))) (int i) other
           = Inr (subseq (drop i (iter self)) other)"
proof (induction other arbitrary: i)
  case Nil
  then show ?case by simp
next
  case (Cons y rest)
  let ?xs = "iter self"
  have g: "getitem self (int i) = Inr (?xs ! i)"
    by (rule getitem_nth[OF assms(1) Cons.prems assms(2)])
  have dr: "drop i ?xs = ?xs ! i # drop (Suc i) ?xs"
    using Cons.prems by (simp add: Cons_nth_drop_Suc)
  show ?case
  proof (cases "y = ?xs ! i")
    case True
    show ?thesis
    proof (cases "Suc i = length ?xs")
      case last: True
      then have "drop (Suc i) ?xs = []" by simp
      moreover have "int i + 1 = int (length ?xs)" using last by simp
      ultimately show ?thesis using True g dr by simp
    next
      case False
      with Cons.prems have lt: "Suc i < length ?xs" by simp
      have ne: "int i + 1 \<noteq> int (length ?xs)" using False by linarith
      have e: "int (Suc i) = int i + 1" by simp
      have ih: "isorderedsubset_scan self (int (length ?xs)) (int i + 1) rest
                  = Inr (subseq (drop (Suc i) ?xs) rest)"
        using Cons.IH[OF lt] unfolding e .
      show ?thesis using True ne by (simp add: g dr ih)
    qed
  next
    case False
    then show ?thesis using g dr Cons.IH[OF Cons.prems] by simp
  qed
qed

lemma length_iter: "int (length (iter self)) = len self"
  by (cases self) (simp_all add: dict_len_def dict_keys_def)

lemma isorderedsubset_nonempty:
  assumes "wf self" "len self \<le> sys_maxsize" "iter self \<noteq> []"
  shows "StableSet_isorderedsubset self other = Inr (subseq (iter self) other)"
proof (cases "len self > int (length other)")
  case True
  then have "length other < length (iter self)" using length_iter[of self] by linarith
  then have "\<not> subseq (iter self) other"
    using list_emb_length[of "(=)" "iter self" other] by auto
  with True show ?thesis by (simp add: StableSet_isorderedsubset_def)
next
  case False
  have "0 < length (iter self)" using assms(3) by simp
  from isorderedsubset_scan_subseq[OF assms(1,2) this, of other] False
  show ?thesis by (simp add: StableSet_isorderedsubset_def length_iter)
qed

subsection \<open>The specified properties\<close>

text \<open>
  C1: \<open>add(x)\<close> returns the current index of \<open>x\<close>, also when \<open>x\<close> was present at an earlier
  position. \<open>StableSet.add\<close> returns \<open>len(self._map) - 1\<close> instead: adding \<open>1\<close> to
  \<open>StableSet([1, 2, 3])\<close> leaves the order \<open>[1, 2, 3]\<close>, where \<open>1\<close> is at index 0, and
  returns 2. \<open>OrderedSet.add\<close> on the same content returns 0.
\<close>

theorem C1_StableSet_add_present_returns_last_index:
  "add (StableSet [(1::int, ()), (2, ()), (3, ())]) 1
     = Inr (StableSet [(1, ()), (2, ()), (3, ())], 2)
   \<and> add (OrderedSet [1::int, 2, 3] [(1, 0), (2, 1), (3, 2)]) 1
     = Inr (OrderedSet [1, 2, 3] [(1, 0), (2, 1), (3, 2)], 0)"
  by (simp add: StableSet_add_def OrderedSet_add_def dict_len_def dict_contains_def
      dict_keys_def dict_getitem_def)

text \<open>
  C2: after \<open>OrderedSet.pop(i)\<close> or \<open>popitem(last)\<close> the position map still agrees with the
  sequence. \<open>pop\<close> and \<open>popitem\<close> delete the element from \<open>_items\<close> and its key from \<open>_map\<close> and
  repair nothing: \<open>OrderedSet([1, 2, 3]).pop(0)\<close> leaves \<open>_items == [2, 3]\<close> with
  \<open>_map == {2: 1, 3: 2}\<close>, so \<open>index(2)\<close> is 1 where \<open>3\<close> is stored, and \<open>popitem(last=False)\<close>
  does the same. \<open>discard(1)\<close> on the same container repairs the map.
\<close>

theorem C2_OrderedSet_pop_leaves_positions_stale:
  "pop (OrderedSet [1::int, 2, 3] [(1, 0), (2, 1), (3, 2)]) 0
     = Inr (OrderedSet [2, 3] [(2, 1), (3, 2)], 1)
   \<and> popitem (OrderedSet [1::int, 2, 3] [(1, 0), (2, 1), (3, 2)]) False
     = Inr (OrderedSet [2, 3] [(2, 1), (3, 2)], 1)
   \<and> position_invariant [1::int, 2, 3] [(1, 0), (2, 1), (3, 2)]
   \<and> \<not> position_invariant [2::int, 3] [(2, 1), (3, 2)]
   \<and> index (OrderedSet [2::int, 3] [(2, 1), (3, 2)]) 2 = Inr 1
   \<and> getitem (OrderedSet [2::int, 3] [(2, 1), (3, 2)]) 1 = Inr 3
   \<and> discard (OrderedSet [1::int, 2, 3] [(1, 0), (2, 1), (3, 2)]) 1
     = Inr (OrderedSet [2, 3] [(2, 0), (3, 1)])"
  by (simp add: OrderedSet_pop_def OrderedSet_popitem_def OrderedSet_discard_def
      position_invariant_def list_getitem_def list_delitem_def list_position_def
      dict_delitem_def dict_contains_def dict_keys_def dict_getitem_def upt_rec)



text \<open>
  C4: \<open>update(source)\<close> adds the elements of \<open>source\<close> in order and returns the position of
  the last element processed, in both classes. \<open>StableSet.update\<close> returns
  \<open>len(self._map) - 1\<close> instead: \<open>StableSet([1, 2, 3]).update([3, 1])\<close> leaves the order
  \<open>[1, 2, 3]\<close>, where the last element processed, \<open>1\<close>, is at index 0, and returns 2;
  \<open>OrderedSet.update\<close> returns 0 there. On the example of the specification,
  \<open>update([3, 1, 5, 1, 4])\<close>, both give the order \<open>[1, 2, 3, 5, 4]\<close> and return 4, and both
  raise ValueError on an argument that is not iterable.
\<close>

theorem C4_StableSet_update_returns_last_index:
  "update (StableSet [(1::int, ()), (2, ()), (3, ())]) (Iterable [3, 1])
     = Inr (StableSet [(1, ()), (2, ()), (3, ())], 2)
   \<and> index (StableSet [(1::int, ()), (2, ()), (3, ())]) 1 = Inr 0
   \<and> update (OrderedSet [1::int, 2, 3] [(1, 0), (2, 1), (3, 2)]) (Iterable [3, 1])
     = Inr (OrderedSet [1, 2, 3] [(1, 0), (2, 1), (3, 2)], 0)
   \<and> update (StableSet [(1::int, ()), (2, ()), (3, ())]) (Iterable [3, 1, 5, 1, 4])
     = Inr (StableSet [(1, ()), (2, ()), (3, ()), (5, ()), (4, ())], 4)
   \<and> update (OrderedSet [1::int, 2, 3] [(1, 0), (2, 1), (3, 2)]) (Iterable [3, 1, 5, 1, 4])
     = Inr (OrderedSet [1, 2, 3, 5, 4] [(1, 0), (2, 1), (3, 2), (5, 3), (4, 4)], 4)
   \<and> update (StableSet [(1::int, ()), (2, ()), (3, ())]) NotIterable = Inl ValueError
   \<and> update (OrderedSet [1::int, 2, 3] [(1, 0), (2, 1), (3, 2)]) NotIterable = Inl ValueError"
  by (simp add: StableSet_update_def OrderedSet_update_def OrderedSet_add_def dict_fromkeys_def
      dict_update_def dict_len_def dict_contains_def dict_keys_def dict_getitem_def)

text \<open>
  C5: \<open>isorderedsubset\<close> is true exactly when the elements of \<open>self\<close> are a subsequence of
  \<open>other\<close>, which every empty \<open>self\<close> is. The scan reads \<open>self[0]\<close> before it compares
  anything and returns \<open>True\<close> only after a match: with an empty \<open>self\<close> it raises
  IndexError when \<open>other\<close> has an element and returns \<open>False\<close> when \<open>other\<close> is empty.
  With a nonempty \<open>self\<close> the result is the subsequence relation (lemma
  \<open>isorderedsubset_nonempty\<close>).
\<close>

theorem C5_isorderedsubset_empty_self:
  "StableSet_isorderedsubset (StableSet ([]::(int, unit) dict)) [1] = Inl IndexError
   \<and> StableSet_isorderedsubset (StableSet ([]::(int, unit) dict)) [] = Inr False
   \<and> StableSet_isorderedsubset (OrderedSet ([]::int list) []) [1] = Inl IndexError
   \<and> StableSet_isorderedsubset (OrderedSet ([]::int list) []) [] = Inr False
   \<and> subseq (iter (StableSet ([]::(int, unit) dict))) [1]
   \<and> subseq (iter (OrderedSet ([]::int list) [])) []"
  by (simp add: StableSet_isorderedsubset_def StableSet_getitem_def islice_def sys_maxsize_def
      next_item_def list_getitem_def list_position_def dict_len_def dict_keys_def)

text \<open>
  C6: \<open>pop(i)\<close> with an index that has no element raises IndexError, in both classes.
  \<open>StableSet.pop\<close> reads the element with \<open>next(itertools.islice(...))\<close> and does not catch
  StopIteration, as \<open>StableSet.__getitem__\<close> does: \<open>StableSet([1, 2, 3]).pop(5)\<close> raises
  StopIteration, and \<open>pop(-2)\<close>, a position that \<open>OrderedSet.pop\<close> accepts, raises the
  ValueError of \<open>islice\<close>. \<open>OrderedSet.pop(5)\<close> raises IndexError.
\<close>

theorem C6_StableSet_pop_out_of_range_raises_StopIteration:
  "pop (StableSet [(1::int, ()), (2, ()), (3, ())]) 5 = Inl StopIteration
   \<and> pop (StableSet [(1::int, ()), (2, ()), (3, ())]) (- 2) = Inl ValueError
   \<and> getitem (StableSet [(1::int, ()), (2, ()), (3, ())]) 5 = Inl IndexError
   \<and> pop (OrderedSet [1::int, 2, 3] [(1, 0), (2, 1), (3, 2)]) 5 = Inl IndexError
   \<and> pop (OrderedSet [1::int, 2, 3] [(1, 0), (2, 1), (3, 2)]) (- 2)
     = Inr (OrderedSet [1, 3] [(1, 0), (3, 2)], 2)"
  by (simp add: StableSet_pop_def StableSet_getitem_def OrderedSet_pop_def islice_def
      sys_maxsize_def next_item_def list_getitem_def list_delitem_def list_position_def
      dict_delitem_def dict_contains_def dict_keys_def)



text \<open>
  C8: \<open>A.union(B).union(C)\<close> and \<open>A.union(B, C)\<close> return the same container, slot for slot,
  of the class of \<open>A\<close>. It is well formed, so an \<open>OrderedSet\<close> result holds in \<open>_items\<close> the
  keys of \<open>_map\<close> in their order with each key mapped to its position, and it lists the
  concatenation of \<open>A\<close>, \<open>B\<close> and \<open>C\<close> deduplicated on first occurrence. The intermediate
  \<open>A.union(B)\<close> is well formed too.
\<close>

theorem C8_union_chain:
  "\<exists>r1 r. StableSet_union A [iter B] = Inr r1
         \<and> StableSet_union r1 [iter C] = Inr r
         \<and> StableSet_union A [iter B, iter C] = Inr r
         \<and> type_of r = type_of A
         \<and> wf r1
         \<and> wf r
         \<and> iter r = first_occurrences (iter A @ iter B @ iter C)"
proof -
  from StableSet_union_result[of A "[iter B]"] obtain r1 where
    u1: "StableSet_union A [iter B] = Inr r1" and t1: "type_of r1 = type_of A"
    and w1: "wf r1"
    and i1: "iter r1 = first_occurrences (iter A @ iter B)" by auto
  from StableSet_union_result[of r1 "[iter C]"] obtain r where
    u2: "StableSet_union r1 [iter C] = Inr r" and t2: "type_of r = type_of r1" and w2: "wf r"
    and i2: "iter r = first_occurrences (iter r1 @ iter C)" by auto
  from StableSet_union_result[of A "[iter B, iter C]"] obtain r' where
    u3: "StableSet_union A [iter B, iter C] = Inr r'" and t3: "type_of r' = type_of A"
    and w3: "wf r'" and i3: "iter r' = first_occurrences (iter A @ iter B @ iter C)" by auto
  have i2': "iter r = first_occurrences (iter A @ iter B @ iter C)"
    unfolding i2 i1 using first_occurrences_idem_append[of "iter A @ iter B" "iter C"] by simp
  have "r = r'" by (rule wf_unique[OF w2 w3]) (simp_all add: t1 t2 t3 i2' i3)
  with u1 u2 u3 t1 t2 w1 w2 i2' show ?thesis by simp
qed

theorem C8_union_chain_witness:
  "StableSet_union (OrderedSet [3::int, 1] [(3, 0), (1, 1)]) [iter (StableSet [(1::int, ()), (2, ())])]
     = Inr (OrderedSet [3, 1, 2] [(3, 0), (1, 1), (2, 2)])
   \<and> StableSet_union (OrderedSet [3::int, 1, 2] [(3, 0), (1, 1), (2, 2)])
        [iter (StableSetEq [(2::int, ()), (0, ())])]
     = Inr (OrderedSet [3, 1, 2, 0] [(3, 0), (1, 1), (2, 2), (0, 3)])
   \<and> StableSet_union (OrderedSet [3::int, 1] [(3, 0), (1, 1)])
        [iter (StableSet [(1::int, ()), (2, ())]), iter (StableSetEq [(2::int, ()), (0, ())])]
     = Inr (OrderedSet [3, 1, 2, 0] [(3, 0), (1, 1), (2, 2), (0, 3)])
   \<and> wf (OrderedSet [3::int, 1, 2, 0] [(3, 0), (1, 1), (2, 2), (0, 3)])
   \<and> getitem (OrderedSet [3::int, 1, 2, 0] [(3, 0), (1, 1), (2, 2), (0, 3)]) 0 = Inr 3"
proof -
  have e1: "StableSet_union (OrderedSet [3::int, 1] [(3, 0), (1, 1)])
        [iter (StableSet [(1::int, ()), (2, ())])]
      = Inr (OrderedSet [3, 1, 2] [(3, 0), (1, 1), (2, 2)])"
    by (simp add: StableSet_union_def OrderedSet_init_def OrderedSet_add_def dict_contains_def
        dict_getitem_def dict_keys_def)
  have e3: "StableSet_union (OrderedSet [3::int, 1] [(3, 0), (1, 1)])
        [iter (StableSet [(1::int, ()), (2, ())]), iter (StableSetEq [(2::int, ()), (0, ())])]
      = Inr (OrderedSet [3, 1, 2, 0] [(3, 0), (1, 1), (2, 2), (0, 3)])"
    by (simp add: StableSet_union_def OrderedSet_init_def OrderedSet_add_def dict_contains_def
        dict_getitem_def dict_keys_def)
  from C8_union_chain[of "OrderedSet [3::int, 1] [(3, 0), (1, 1)]"
      "StableSet [(1::int, ()), (2, ())]" "StableSetEq [(2::int, ()), (0, ())]"]
  obtain r1 r where
    u1: "StableSet_union (OrderedSet [3::int, 1] [(3, 0), (1, 1)])
           [iter (StableSet [(1::int, ()), (2, ())])] = Inr r1"
    and u2: "StableSet_union r1 [iter (StableSetEq [(2::int, ()), (0, ())])] = Inr r"
    and u3: "StableSet_union (OrderedSet [3::int, 1] [(3, 0), (1, 1)])
           [iter (StableSet [(1::int, ()), (2, ())]), iter (StableSetEq [(2::int, ()), (0, ())])]
           = Inr r"
    and w: "wf r"
    by blast
  from u1 e1 have r1: "r1 = OrderedSet [3, 1, 2] [(3, 0), (1, 1), (2, 2)]" by simp
  from u3 e3 have r: "r = OrderedSet [3, 1, 2, 0] [(3, 0), (1, 1), (2, 2), (0, 3)]" by simp
  have e2: "StableSet_union (OrderedSet [3::int, 1, 2] [(3, 0), (1, 1), (2, 2)])
        [iter (StableSetEq [(2::int, ()), (0, ())])]
      = Inr (OrderedSet [3, 1, 2, 0] [(3, 0), (1, 1), (2, 2), (0, 3)])"
    using u2 unfolding r1 r .
  have w': "wf (OrderedSet [3::int, 1, 2, 0] [(3, 0), (1, 1), (2, 2), (0, 3)])"
    using w unfolding r .
  have g: "getitem (OrderedSet [3::int, 1, 2, 0] [(3, 0), (1, 1), (2, 2), (0, 3)]) 0 = Inr 3"
    by (simp add: list_getitem_def list_position_def)
  from e1 e2 e3 w' g show ?thesis by (intro conjI)
qed

text \<open>
  C9: capturing the state of a container with \<open>__getstate__\<close> and restoring it with
  \<open>__setstate__\<close> on an object of the same class gives a container of that class with the
  same elements in the same order, and the very same container, slot for slot, when the
  captured one is well formed. The state is the empty marker exactly when the container
  is empty, and the empty marker restores to an empty container.
\<close>

theorem C9_state_roundtrip:
  assumes d: "distinct (iter C)" and t: "type_of X = type_of C"
  shows "(\<exists>R. StableSet_setstate X (StableSet_getstate C) = Inr R
            \<and> type_of R = type_of C \<and> iter R = iter C \<and> wf R \<and> (wf C \<longrightarrow> R = C))
       \<and> (StableSet_getstate C = EmptyMarker \<longleftrightarrow> iter C = [])
       \<and> (\<exists>E. StableSet_setstate X EmptyMarker = Inr E \<and> type_of E = type_of C \<and> iter E = [])"
proof (intro conjI)
  from init_distinct[OF d, of "type_of C"] obtain R where
    R: "init (type_of C) (iter C) = Inr R" "type_of R = type_of C" "wf R" "iter R = iter C"
    by auto
  have run: "StableSet_setstate X (StableSet_getstate C) = Inr R"
  proof (cases "iter C = []")
    case True
    then show ?thesis using R(1) t by (simp add: StableSet_setstate_def StableSet_getstate_def len_zero_iff)
  next
    case False
    then show ?thesis using R(1) t by (simp add: StableSet_setstate_def StableSet_getstate_def len_zero_iff)
  qed
  have "wf C \<longrightarrow> R = C"
    using wf_unique[of R C] R by simp
  with run R show "\<exists>R. StableSet_setstate X (StableSet_getstate C) = Inr R
            \<and> type_of R = type_of C \<and> iter R = iter C \<and> wf R \<and> (wf C \<longrightarrow> R = C)"
    by simp
next
  show "StableSet_getstate C = EmptyMarker \<longleftrightarrow> iter C = []"
    by (simp add: StableSet_getstate_def len_zero_iff)
next
  from init_result[of "type_of C" "[]"]
  show "\<exists>E. StableSet_setstate X EmptyMarker = Inr E \<and> type_of E = type_of C \<and> iter E = []"
    using t by (auto simp: StableSet_setstate_def)
qed

theorem C9_state_roundtrip_witness:
  "distinct (iter (OrderedSet [1::int, 3] [(1, 0), (3, 1)]))
   \<and> type_of (OrderedSet ([]::int list) []) = type_of (OrderedSet [1::int, 3] [(1, 0), (3, 1)])
   \<and> wf (OrderedSet [1::int, 3] [(1, 0), (3, 1)])
   \<and> StableSet_getstate (OrderedSet [1::int, 3] [(1, 0), (3, 1)]) = Items [1, 3]
   \<and> StableSet_setstate (OrderedSet ([]::int list) [])
        (StableSet_getstate (OrderedSet [1::int, 3] [(1, 0), (3, 1)]))
      = Inr (OrderedSet [1, 3] [(1, 0), (3, 1)])"
proof -
  have a: "distinct (iter (OrderedSet [1::int, 3] [(1, 0), (3, 1)]))"
    by (simp add: dict_keys_def)
  have b: "type_of (OrderedSet ([]::int list) []) = type_of (OrderedSet [1::int, 3] [(1, 0), (3, 1)])"
    by simp
  have w: "wf (OrderedSet [1::int, 3] [(1, 0), (3, 1)])"
    by (simp add: position_invariant_def dict_keys_def dict_getitem_def upt_rec)
  have g: "StableSet_getstate (OrderedSet [1::int, 3] [(1, 0), (3, 1)]) = Items [1, 3]"
    by (simp add: StableSet_getstate_def dict_len_def dict_keys_def)
  from C9_state_roundtrip[OF a b] obtain R where
    "StableSet_setstate (OrderedSet ([]::int list) [])
        (StableSet_getstate (OrderedSet [1::int, 3] [(1, 0), (3, 1)])) = Inr R"
    and "wf (OrderedSet [1::int, 3] [(1, 0), (3, 1)]) \<longrightarrow> R = OrderedSet [1, 3] [(1, 0), (3, 1)]"
    by blast
  with w have "StableSet_setstate (OrderedSet ([]::int list) [])
        (StableSet_getstate (OrderedSet [1::int, 3] [(1, 0), (3, 1)]))
      = Inr (OrderedSet [1, 3] [(1, 0), (3, 1)])"
    by simp
  with a b w g show ?thesis by (intro conjI)
qed

text \<open>
  C10: \<open>C.copy()\<close> allocates a new object, distinct from \<open>C\<close> and from every object that
  existed, of the class of \<open>C\<close> (also for the subclass \<open>StableSetEq\<close>), with the elements of
  \<open>C\<close> in the same order; \<open>C\<close> and every other object are unchanged. The copy of a well-formed
  container has the same slots as the original.
\<close>

theorem C10_copy:
  assumes a: "self < length h" and d: "distinct (iter (h ! self))"
  shows "\<exists>h' new. StableSet_copy h self = Inr (h', new)
           \<and> new \<noteq> self \<and> \<not> new < length h \<and> new < length h'
           \<and> h' ! self = h ! self
           \<and> (\<forall>a. a < length h \<longrightarrow> h' ! a = h ! a)
           \<and> type_of (h' ! new) = type_of (h ! self)
           \<and> iter (h' ! new) = iter (h ! self)
           \<and> (wf (h ! self) \<longrightarrow> h' ! new = h ! self)"
proof -
  from init_distinct[OF d, of "type_of (h ! self)"] obtain c where
    c: "init (type_of (h ! self)) (iter (h ! self)) = Inr c" "type_of c = type_of (h ! self)"
       "wf c" "iter c = iter (h ! self)"
    by auto
  have run: "StableSet_copy h self = Inr (h @ [c], length h)"
    by (simp add: StableSet_copy_def new_object_def c(1))
  have same: "wf (h ! self) \<longrightarrow> c = h ! self"
    using wf_unique[of c "h ! self"] c by simp
  have "length h \<noteq> self \<and> \<not> length h < length h \<and> length h < length (h @ [c])
           \<and> (h @ [c]) ! self = h ! self
           \<and> (\<forall>a. a < length h \<longrightarrow> (h @ [c]) ! a = h ! a)
           \<and> type_of ((h @ [c]) ! length h) = type_of (h ! self)
           \<and> iter ((h @ [c]) ! length h) = iter (h ! self)
           \<and> (wf (h ! self) \<longrightarrow> (h @ [c]) ! length h = h ! self)"
    using a c same by (simp add: nth_append)
  with run show ?thesis by blast
qed

theorem C10_copy_witness:
  "(1::nat) < length [StableSet [(3::int, ()), (1, ())], StableSetEq [(3, ()), (1, ())]]
   \<and> distinct (iter ([StableSet [(3::int, ()), (1, ())], StableSetEq [(3, ()), (1, ())]] ! 1))
   \<and> StableSet_copy [StableSet [(3::int, ()), (1, ())], StableSetEq [(3, ()), (1, ())]] 1
      = Inr ([StableSet [(3, ()), (1, ())], StableSetEq [(3, ()), (1, ())],
              StableSetEq [(3, ()), (1, ())]], 2)"
proof -
  have a: "(1::nat) < length [StableSet [(3::int, ()), (1, ())], StableSetEq [(3, ()), (1, ())]]"
    by simp
  have d: "distinct (iter ([StableSet [(3::int, ()), (1, ())], StableSetEq [(3, ()), (1, ())]] ! 1))"
    by (simp add: dict_keys_def)
  from C10_copy[OF a d] obtain h' new where
    r: "StableSet_copy [StableSet [(3::int, ()), (1, ())], StableSetEq [(3, ()), (1, ())]] 1
          = Inr (h', new)"
    by blast
  have "StableSet_copy [StableSet [(3::int, ()), (1, ())], StableSetEq [(3, ()), (1, ())]] 1
      = Inr ([StableSet [(3, ()), (1, ())], StableSetEq [(3, ()), (1, ())],
              StableSetEq [(3, ()), (1, ())]], 2)"
    using r by (simp add: StableSet_copy_def new_object_def StableSet_init_def dict_fromkeys_def
        dict_keys_def)
  with a d show ?thesis by (intro conjI)
qed

end
